theory Spec2Isabelle
  imports Main "HOL-Library.Sublist"
begin

section \<open>Python text operations used by the handler\<close>

text \<open>
  The request handler \<^verbatim>\<open>process_questions\<close> of \<^verbatim>\<open>app.py\<close> works on Python \<^verbatim>\<open>str\<close> values.
  They are modelled as \<^typ>\<open>string\<close>, that is as lists of 8-bit characters: a text whose code
  points are all below 256. The whitespace class below is Python's \<^verbatim>\<open>str.isspace\<close> (which is
  also what \<^verbatim>\<open>\s\<close> matches in a \<^verbatim>\<open>str\<close> pattern) on that range.
\<close>

definition isspace :: "char \<Rightarrow> bool" where
  "isspace c \<longleftrightarrow>
     c \<in> set [CHR 0x09, CHR ''\<newline>'', CHR 0x0B, CHR 0x0C, CHR 0x0D,
              CHR 0x1C, CHR 0x1D, CHR 0x1E, CHR 0x1F, CHR '' '', CHR 0x85, CHR 0xA0]"

text \<open>\<^verbatim>\<open>s.strip()\<close>: leading and trailing whitespace removed.\<close>

definition strip :: "string \<Rightarrow> string" where
  "strip s = rev (dropWhile isspace (rev (dropWhile isspace s)))"

text \<open>
  \<^verbatim>\<open>s.replace(old, new)\<close> for a non-empty \<^verbatim>\<open>old\<close> (both calls of the source pass one):
  the occurrences of \<^verbatim>\<open>old\<close> are found from left to right without overlap.
\<close>

function replace :: "string \<Rightarrow> string \<Rightarrow> string \<Rightarrow> string" where
  "replace old new [] = []"
| "replace old new (c # cs) =
     (if old \<noteq> [] \<and> prefix old (c # cs)
      then new @ replace old new (drop (length old) (c # cs))
      else c # replace old new cs)"
  by pat_completeness auto
termination
  by (relation "measure (\<lambda>(old, new, s). length s)") (auto simp: neq_Nil_conv)

text \<open>\<^verbatim>\<open>sub in s\<close> on strings: \<^verbatim>\<open>sub\<close> occurs in \<^verbatim>\<open>s\<close> as a contiguous substring.\<close>

fun contains :: "string \<Rightarrow> string \<Rightarrow> bool" where
  "contains [] sub = (sub = [])"
| "contains (c # cs) sub = (prefix sub (c # cs) \<or> contains cs sub)"

text \<open>
  \<^verbatim>\<open>s.lower()\<close>: the upper-case letters of the range, \<^verbatim>\<open>A\<close> to \<^verbatim>\<open>Z\<close> and the accented
  capitals \<^verbatim>\<open>0xC0\<close> to \<^verbatim>\<open>0xDE\<close> without the multiplication sign \<^verbatim>\<open>0xD7\<close>, are mapped to
  their lower-case letters; every other character is kept.
\<close>

definition uppercase :: "string" where
  "uppercase = ''ABCDEFGHIJKLMNOPQRSTUVWXYZ'' @
     [CHR 0xC0, CHR 0xC1, CHR 0xC2, CHR 0xC3, CHR 0xC4, CHR 0xC5, CHR 0xC6, CHR 0xC7,
      CHR 0xC8, CHR 0xC9, CHR 0xCA, CHR 0xCB, CHR 0xCC, CHR 0xCD, CHR 0xCE, CHR 0xCF,
      CHR 0xD0, CHR 0xD1, CHR 0xD2, CHR 0xD3, CHR 0xD4, CHR 0xD5, CHR 0xD6,
      CHR 0xD8, CHR 0xD9, CHR 0xDA, CHR 0xDB, CHR 0xDC, CHR 0xDD, CHR 0xDE]"

definition lowercase :: "string" where
  "lowercase = ''abcdefghijklmnopqrstuvwxyz'' @
     [CHR 0xE0, CHR 0xE1, CHR 0xE2, CHR 0xE3, CHR 0xE4, CHR 0xE5, CHR 0xE6, CHR 0xE7,
      CHR 0xE8, CHR 0xE9, CHR 0xEA, CHR 0xEB, CHR 0xEC, CHR 0xED, CHR 0xEE, CHR 0xEF,
      CHR 0xF0, CHR 0xF1, CHR 0xF2, CHR 0xF3, CHR 0xF4, CHR 0xF5, CHR 0xF6,
      CHR 0xF8, CHR 0xF9, CHR 0xFA, CHR 0xFB, CHR 0xFC, CHR 0xFD, CHR 0xFE]"

definition lower_char :: "char \<Rightarrow> char" where
  "lower_char c = (case map_of (zip uppercase lowercase) c of Some l \<Rightarrow> l | None \<Rightarrow> c)"

definition lower :: "string \<Rightarrow> string" where
  "lower s = map lower_char s"

text \<open>\<^verbatim>\<open>sep.join(parts)\<close>.\<close>

fun join :: "string \<Rightarrow> string list \<Rightarrow> string" where
  "join sep [] = []"
| "join sep [p] = p"
| "join sep (p # q # ps) = p @ sep @ join sep (q # ps)"

text \<open>Python truthiness of a string: the empty string is false.\<close>

abbreviation truthy :: "'a list \<Rightarrow> bool" where
  "truthy xs \<equiv> xs \<noteq> []"

section \<open>Values, exceptions and the collaborators of the handler\<close>

text \<open>
  The value returned by the handler is a Python value built from \<^verbatim>\<open>None\<close>, booleans, numbers,
  strings, lists and dictionaries. A dictionary is kept as the list of its items in insertion
  order.
\<close>

datatype json =
    JNull
  | JBool bool
  | JInt int
  | JString string
  | JArray "json list"
  | JObject "(string \<times> json) list"

text \<open>A Python exception is represented by its message \<^verbatim>\<open>str(e)\<close>.\<close>

type_synonym exn = string

type_synonym bytes = "nat list"

datatype http_error = HTTPException (status_code: nat) (detail: string)

text \<open>
  \<^verbatim>\<open>json.loads\<close> returns the parsed value, raises \<^verbatim>\<open>json.JSONDecodeError\<close> on text that is
  not JSON, or raises something else (a \<^verbatim>\<open>RecursionError\<close> on deep nesting, a \<^verbatim>\<open>ValueError\<close>
  on an integer literal beyond the digit limit). The handler catches the three differently.
\<close>

datatype loads_result = Parsed json | JSONDecodeError | OtherError exn

text \<open>
  What the first \<^verbatim>\<open>try\<close> block of the scrape step gets from the network: the rows of the
  first \<^verbatim>\<open>table\<close> element of class \<^verbatim>\<open>wikitable\<close>, when the page has one. A table is the
  list of its \<^verbatim>\<open>tr\<close> elements in document order (\<^verbatim>\<open>table.find_all('tr')\<close>, whose first
  element is \<^verbatim>\<open>table.find('tr')\<close>); a row is the list of the \<^verbatim>\<open>get_text()\<close> of its \<^verbatim>\<open>th\<close>
  and \<^verbatim>\<open>td\<close> elements.
\<close>

type_synonym table = "string list list"

text \<open>
  The handler's collaborators. They are library code and remote services, so the handler is
  parametric in them:
  \<^item> \<^verbatim>\<open>os.getenv("GEMINI_API_KEY")\<close>;
  \<^item> \<^verbatim>\<open>requests.get\<close>, \<^verbatim>\<open>raise_for_status\<close>, \<^verbatim>\<open>BeautifulSoup\<close> and \<^verbatim>\<open>soup.find\<close> on a URL:
    the message of the exception raised on the way, or the table found, if any;
  \<^item> \<^verbatim>\<open>model.generate_content(full_prompt, ...)\<close> followed by \<^verbatim>\<open>response.text\<close>: the message
    of the exception raised, or the text;
  \<^item> \<^verbatim>\<open>json.loads\<close>.
\<close>

record world =
  GEMINI_API_KEY :: "string option"
  fetch :: "string \<Rightarrow> exn + table option"
  generate_content :: "string \<Rightarrow> exn + string"
  json_loads :: "string \<Rightarrow> loads_result"

text \<open>
  The multipart request. The part \<^verbatim>\<open>questions.txt\<close> is a required parameter of the handler;
  \<^verbatim>\<open>image.png\<close> and \<^verbatim>\<open>data.csv\<close> default to \<^verbatim>\<open>None\<close>. A text part is given by what
  \<^verbatim>\<open>(await part.read()).decode('utf-8')\<close> yields: the text, or the message of the exception
  raised by the read or by the decoding. The image part is given by its file name and by
  what \<^verbatim>\<open>await image_png.read()\<close> yields.
\<close>

record image_upload =
  filename :: string
  image_read :: "exn + bytes"

record request =
  questions_txt :: "exn + string"
  image_png :: "image_upload option"
  data_csv :: "(exn + string) option"

section \<open>The scrape step\<close>

text \<open>
  \<^verbatim>\<open>re.search(r'https?://[^\s]+', questions_text)\<close>. \<open>match_url\<close> matches the pattern at the
  start of a text: \<^verbatim>\<open>http\<close>, an optional \<^verbatim>\<open>s\<close>, \<^verbatim>\<open>://\<close>, then the longest run of
  characters that are not whitespace, which must not be empty. \<open>re_search_url\<close> tries the
  start positions from left to right and returns the text of the first match.
\<close>

definition match_url :: "string \<Rightarrow> string option" where
  "match_url s =
     (if prefix ''https://'' s \<and> takeWhile (\<lambda>c. \<not> isspace c) (drop 8 s) \<noteq> []
      then Some (''https://'' @ takeWhile (\<lambda>c. \<not> isspace c) (drop 8 s))
      else if prefix ''http://'' s \<and> takeWhile (\<lambda>c. \<not> isspace c) (drop 7 s) \<noteq> []
      then Some (''http://'' @ takeWhile (\<lambda>c. \<not> isspace c) (drop 7 s))
      else None)"

fun re_search_url :: "string \<Rightarrow> string option" where
  "re_search_url [] = None"
| "re_search_url (c # cs) =
     (case match_url (c # cs) of Some url \<Rightarrow> Some url | None \<Rightarrow> re_search_url cs)"

text \<open>
  The header cells are those of the first row, the data rows are the rows after it that have
  a cell; every cell text is stripped.
\<close>

definition headers_of :: "table \<Rightarrow> string list" where
  "headers_of trs = (case trs of [] \<Rightarrow> [] | header_row # _ \<Rightarrow> map strip header_row)"

definition rows_of :: "table \<Rightarrow> string list list" where
  "rows_of trs = filter truthy (map (map strip) (drop 1 trs))"

text \<open>
  The text built from a table that was found: nothing unless there are header cells and data
  rows; otherwise the title and a newline, the joined header cells and a newline, and the
  joined cells of each of the first 100 data rows and a newline, each appended to
  \<^verbatim>\<open>scraped_data\<close> in turn.
\<close>

definition format_table :: "string \<Rightarrow> table \<Rightarrow> string" where
  "format_table url trs =
     (let headers = headers_of trs; rows = rows_of trs
      in if truthy headers \<and> truthy rows
         then foldl (\<lambda>scraped_data row. scraped_data @ join '','' row @ ''\<newline>'')
                (''Scraped Data from '' @ url @ '':\<newline>'' @ join '','' headers @ ''\<newline>'')
                (take 100 rows)
         else [])"

definition scrape_trigger :: "string \<Rightarrow> bool" where
  "scrape_trigger questions_text \<longleftrightarrow>
     contains questions_text ''wikipedia.org'' \<or> contains (lower questions_text) ''scrape''"

text \<open>The scrape step returns \<^verbatim>\<open>scraped_data\<close> and the list of the URLs it has fetched.\<close>

definition scrape :: "world \<Rightarrow> string \<Rightarrow> string \<times> string list" where
  "scrape w questions_text =
     (if scrape_trigger questions_text then
        (case re_search_url questions_text of
           None \<Rightarrow> ([], [])
         | Some url \<Rightarrow>
             (case fetch w url of
                Inl e \<Rightarrow> (''Error scraping data: '' @ e, [url])
              | Inr None \<Rightarrow> ([], [url])
              | Inr (Some trs) \<Rightarrow> (format_table url trs, [url])))
      else ([], []))"

section \<open>The prompt\<close>

definition instructions :: "string" where
  "instructions =
     ''You are a data analyst with web scraping and data analysis capabilities.\<newline>'' @
     ''\<newline>'' @
     ''CRITICAL INSTRUCTIONS:\<newline>'' @
     ''- Use ONLY the provided CSV data for all calculations. Do NOT guess, estimate, or hallucinate any values. Do NOT use prior knowledge or external information.\<newline>'' @
     ''- If a value cannot be computed directly from the provided data, return null for that field.\<newline>'' @
     ''- For each answer, show step-by-step calculation using only the CSV data. Reference the CSV header and rows as needed.\<newline>'' @
     ''- Do NOT output anything that cannot be derived from the CSV data.\<newline>'' @
     ''- If the CSV data is missing or incomplete, return null for all fields that cannot be computed.\<newline>'' @
     ''- Respond with ONLY a valid JSON array or object - no markdown, no explanations, no extra text.\<newline>'' @
     ''- Do NOT use line breaks ('' @ [CHR 0x5C] @ ''n) or extra whitespace in your JSON response.\<newline>'' @
     ''- Make JSON compact and properly formatted.\<newline>'' @
     ''- For ANY visualization/chart/plot requests: Return the original question text as the value instead of creating images.\<newline>'' @
     ''- Do NOT generate base64 images, plots, or charts - just return the question text for those fields.\<newline>'' @
     ''- Perform all calculations and data analysis accurately.\<newline>'' @
     ''- Return exact numerical values but not as strings.\<newline>'' @
     ''\<newline>'' @
     ''WARNING: If you hallucinate or use information not present in the CSV, your answer will be considered incorrect.\<newline>'' @
     ''\<newline>'' @
     ''Below is the CSV data to use for all calculations:\<newline>''"

text \<open>
  \<^verbatim>\<open>prompt_parts\<close> after the scrape step: the questions, then the scraped data if
  \<^verbatim>\<open>scraped_data\<close> is not empty.
\<close>

definition scrape_parts :: "string \<Rightarrow> string \<Rightarrow> string list" where
  "scrape_parts questions_text scraped_data =
     [''Questions: '' @ questions_text] @
     (if truthy scraped_data then [''Scraped Data: '' @ scraped_data] else [])"

text \<open>
  The image part is read and its content dropped: only the file name goes into the note. A
  failing read is the error 400.
\<close>

definition image_parts :: "image_upload option \<Rightarrow> http_error + string list" where
  "image_parts img =
     (case img of
        None \<Rightarrow> Inr []
      | Some up \<Rightarrow>
          (case image_read up of
             Inl e \<Rightarrow> Inl (HTTPException 400 (''Error reading image.png: '' @ e))
           | Inr image_content \<Rightarrow> Inr [''Image file provided: '' @ filename up]))"

definition csv_parts :: "(exn + string) option \<Rightarrow> http_error + string list" where
  "csv_parts csv =
     (case csv of
        None \<Rightarrow> Inr []
      | Some (Inl e) \<Rightarrow> Inl (HTTPException 400 (''Error reading data.csv: '' @ e))
      | Some (Inr csv_text) \<Rightarrow> Inr [''CSV Data: '' @ csv_text])"

text \<open>
  The prompt: the instructions, the CSV text if there is a CSV part, the questions, and the
  non-empty parts after the first joined by newlines.
\<close>

definition full_prompt :: "string \<Rightarrow> (exn + string) option \<Rightarrow> string list \<Rightarrow> string" where
  "full_prompt questions_text csv prompt_parts =
     instructions @
     (case csv of Some (Inr csv_text) \<Rightarrow> csv_text | _ \<Rightarrow> []) @
     ''\<newline>\<newline>Request to process:\<newline>'' @ questions_text @ ''\<newline>'' @
     join ''\<newline>'' (filter truthy (drop 1 prompt_parts))"

section \<open>The model's reply\<close>

text \<open>
  The second \<^verbatim>\<open>try\<close> block, from the result of the model call on. Every exception raised
  inside it, the \<^verbatim>\<open>HTTPException\<close> for an empty text included, is caught by its
  \<^verbatim>\<open>except Exception\<close> clause and raised again as an error 500 whose detail carries
  \<^verbatim>\<open>str(e)\<close>, which for an \<^verbatim>\<open>HTTPException\<close> is its status code, a colon and its detail.
\<close>

definition clean :: "string \<Rightarrow> string" where
  "clean text =
     (let generated_text = strip text
      in strip (replace ''  '' '' '' (replace ''\<newline>'' [] generated_text)))"

definition fallback :: "string \<Rightarrow> json" where
  "fallback cleaned_response =
     JObject [(''response'', JString cleaned_response), (''status'', JString ''success'')]"

definition gemini_error :: "exn \<Rightarrow> http_error" where
  "gemini_error e = HTTPException 500 (''Error calling Gemini API: '' @ e)"

definition respond :: "world \<Rightarrow> exn + string \<Rightarrow> http_error + json" where
  "respond w reply =
     (case reply of
        Inl e \<Rightarrow> Inl (gemini_error e)
      | Inr text \<Rightarrow>
          if \<not> truthy text then Inl (gemini_error ''500: No response from Gemini API'')
          else (case json_loads w (clean text) of
                  Parsed parsed_json \<Rightarrow> Inr parsed_json
                | JSONDecodeError \<Rightarrow> Inr (fallback (clean text))
                | OtherError e \<Rightarrow> Inl (gemini_error e)))"

section \<open>The handler\<close>

text \<open>
  The outcome of a request: the response (an error with its status code, or the value that
  is serialised as the body), the URLs fetched and the prompts sent to the model.
\<close>

record outcome =
  response :: "http_error + json"
  fetched :: "string list"
  prompted :: "string list"

definition process_questions :: "world \<Rightarrow> request \<Rightarrow> outcome" where
  "process_questions w req =
     (if \<not> (case GEMINI_API_KEY w of None \<Rightarrow> False | Some api_key \<Rightarrow> truthy api_key) then
        \<lparr>response = Inl (HTTPException 500 ''GEMINI_API_KEY environment variable not set''),
         fetched = [], prompted = []\<rparr>
      else
        (case questions_txt req of
           Inl e \<Rightarrow>
             \<lparr>response = Inl (HTTPException 400 (''Error reading questions.txt: '' @ e)),
              fetched = [], prompted = []\<rparr>
         | Inr questions_text \<Rightarrow>
             (case scrape w questions_text of
                (scraped_data, urls) \<Rightarrow>
                  (case image_parts (image_png req) of
                     Inl err \<Rightarrow> \<lparr>response = Inl err, fetched = urls, prompted = []\<rparr>
                   | Inr image_note \<Rightarrow>
                       (case csv_parts (data_csv req) of
                          Inl err \<Rightarrow> \<lparr>response = Inl err, fetched = urls, prompted = []\<rparr>
                        | Inr csv_note \<Rightarrow>
                            (let prompt_parts =
                                   scrape_parts questions_text scraped_data @ image_note @ csv_note;
                                 prompt = full_prompt questions_text (data_csv req) prompt_parts
                             in \<lparr>response = respond w (generate_content w prompt),
                                 fetched = urls, prompted = [prompt]\<rparr>))))))"

text \<open>The HTTP status of an outcome: 200 for a returned value.\<close>

definition status :: "outcome \<Rightarrow> nat" where
  "status r = (case response r of Inl err \<Rightarrow> status_code err | Inr body \<Rightarrow> 200)"

section \<open>The endpoint\<close>


datatype answer = RequestValidationError | Handled outcome



section \<open>A reference instance of the collaborators\<close>

text \<open>
  The theorems below hold for every \<^typ>\<open>world\<close>. To evaluate the handler on concrete requests,
  this section gives one: a parser for the fragment of JSON made of \<^verbatim>\<open>null\<close>, \<^verbatim>\<open>true\<close>,
  \<^verbatim>\<open>false\<close>, integer literals, strings with the two-character escapes, arrays and objects,
  on which it returns what \<^verbatim>\<open>json.loads\<close> returns (a repeated key keeps its place and takes
  the last value, as in a Python dictionary). Fractions, exponents and \<^verbatim>\<open>\u\<close> escapes are
  outside the fragment, and no evaluation below uses them. The first argument of
  \<open>parse_value\<close> is a budget of nested calls, which \<open>json_loads_ref\<close> takes from the length
  of the text.
\<close>

definition json_space :: "char \<Rightarrow> bool" where
  "json_space c \<longleftrightarrow> c \<in> set [CHR '' '', CHR 0x09, CHR ''\<newline>'', CHR 0x0D]"

definition skip_ws :: "string \<Rightarrow> string" where
  "skip_ws s = dropWhile json_space s"

definition escapes :: "(char \<times> char) list" where
  "escapes =
     [(CHR 0x22, CHR 0x22), (CHR 0x5C, CHR 0x5C), (CHR ''/'', CHR ''/''), (CHR ''b'', CHR 0x08),
      (CHR ''f'', CHR 0x0C), (CHR ''n'', CHR ''\<newline>''), (CHR ''r'', CHR 0x0D),
      (CHR ''t'', CHR 0x09)]"

fun scan_string :: "string \<Rightarrow> (string \<times> string) option" where
  "scan_string [] = None"
| "scan_string [c] = (if c = CHR 0x22 then Some ([], []) else None)"
| "scan_string (c # e # cs) =
     (if c = CHR 0x22 then Some ([], e # cs)
      else if c = CHR 0x5C then
        (case map_of escapes e of
           None \<Rightarrow> None
         | Some ch \<Rightarrow> map_option (\<lambda>(str, rest). (ch # str, rest)) (scan_string cs))
      else if (of_char c :: nat) < 32 then None
      else map_option (\<lambda>(str, rest). (c # str, rest)) (scan_string (e # cs)))"

definition digit_value :: "char \<Rightarrow> int option" where
  "digit_value c = map_of (zip ''0123456789'' [0, 1, 2, 3, 4, 5, 6, 7, 8, 9]) c"

definition is_digit :: "char \<Rightarrow> bool" where
  "is_digit c \<longleftrightarrow> digit_value c \<noteq> None"

definition int_of_digits :: "string \<Rightarrow> int" where
  "int_of_digits ds = foldl (\<lambda>n d. 10 * n + (case digit_value d of Some v \<Rightarrow> v | None \<Rightarrow> 0)) 0 ds"

definition scan_digits :: "string \<Rightarrow> (int \<times> string) option" where
  "scan_digits s =
     (let ds = (if prefix ''0'' s then ''0'' else takeWhile is_digit s); rest = drop (length ds) s
      in if ds = [] \<or> (rest \<noteq> [] \<and> hd rest \<in> set ''.eE'') then None
         else Some (int_of_digits ds, rest))"

definition scan_number :: "string \<Rightarrow> (json \<times> string) option" where
  "scan_number s =
     (if prefix ''-'' s then map_option (\<lambda>(n, rest). (JInt (- n), rest)) (scan_digits (drop 1 s))
      else map_option (\<lambda>(n, rest). (JInt n, rest)) (scan_digits s))"

fun dict_set :: "(string \<times> json) list \<Rightarrow> string \<Rightarrow> json \<Rightarrow> (string \<times> json) list" where
  "dict_set [] k v = [(k, v)]"
| "dict_set ((k', v') # d) k v = (if k' = k then (k, v) # d else (k', v') # dict_set d k v)"

fun parse_value :: "nat \<Rightarrow> string \<Rightarrow> (json \<times> string) option"
  and parse_elements :: "nat \<Rightarrow> json list \<Rightarrow> string \<Rightarrow> (json \<times> string) option"
  and parse_members :: "nat \<Rightarrow> (string \<times> json) list \<Rightarrow> string \<Rightarrow> (json \<times> string) option"
where
  "parse_value 0 s = None"
| "parse_value (Suc n) s =
     (if prefix ''null'' s then Some (JNull, drop 4 s)
      else if prefix ''true'' s then Some (JBool True, drop 4 s)
      else if prefix ''false'' s then Some (JBool False, drop 5 s)
      else if prefix [CHR 0x22] s then
        map_option (\<lambda>(str, rest). (JString str, rest)) (scan_string (drop 1 s))
      else if prefix ''['' s then
        (if prefix '']'' (skip_ws (drop 1 s)) then Some (JArray [], drop 1 (skip_ws (drop 1 s)))
         else parse_elements n [] (skip_ws (drop 1 s)))
      else if prefix ''{'' s then
        (if prefix ''}'' (skip_ws (drop 1 s)) then Some (JObject [], drop 1 (skip_ws (drop 1 s)))
         else parse_members n [] (skip_ws (drop 1 s)))
      else scan_number s)"
| "parse_elements 0 vs s = None"
| "parse_elements (Suc n) vs s =
     (case parse_value n s of
        None \<Rightarrow> None
      | Some (v, rest) \<Rightarrow>
          (if prefix '']'' (skip_ws rest) then Some (JArray (vs @ [v]), drop 1 (skip_ws rest))
           else if prefix '','' (skip_ws rest)
           then parse_elements n (vs @ [v]) (skip_ws (drop 1 (skip_ws rest)))
           else None))"
| "parse_members 0 d s = None"
| "parse_members (Suc n) d s =
     (if prefix [CHR 0x22] s then
        (case scan_string (drop 1 s) of
           None \<Rightarrow> None
         | Some (k, rest) \<Rightarrow>
             (if prefix '':'' (skip_ws rest) then
                (case parse_value n (skip_ws (drop 1 (skip_ws rest))) of
                   None \<Rightarrow> None
                 | Some (v, rest') \<Rightarrow>
                     (if prefix ''}'' (skip_ws rest')
                      then Some (JObject (dict_set d k v), drop 1 (skip_ws rest'))
                      else if prefix '','' (skip_ws rest')
                      then parse_members n (dict_set d k v) (skip_ws (drop 1 (skip_ws rest')))
                      else None))
              else None))
      else None)"

definition json_loads_ref :: "string \<Rightarrow> loads_result" where
  "json_loads_ref s =
     (case parse_value (2 * length s + 2) (skip_ws s) of
        None \<Rightarrow> JSONDecodeError
      | Some (v, rest) \<Rightarrow> if skip_ws rest = [] then Parsed v else JSONDecodeError)"

text \<open>
  A world with a key, whose page fetch and model call return the same thing whatever they
  are asked, and a request with a questions part only.
\<close>

definition fixed_world :: "exn + table option \<Rightarrow> exn + string \<Rightarrow> world" where
  "fixed_world page reply =
     \<lparr>GEMINI_API_KEY = Some ''key'', fetch = (\<lambda>url. page),
      generate_content = (\<lambda>prompt. reply), json_loads = json_loads_ref\<rparr>"

definition question :: "string \<Rightarrow> request" where
  "question q = \<lparr>questions_txt = Inr q, image_png = None, data_csv = None\<rparr>"

section \<open>Statements of the specification, for comparison\<close>

text \<open>
  The fallback object in the words of the specification: its field \<^verbatim>\<open>response\<close> carries the
  stripped text of the reply.
\<close>

definition stripped_fallback :: "string \<Rightarrow> json" where
  "stripped_fallback text =
     JObject [(''response'', JString (strip text)), (''status'', JString ''success'')]"

text \<open>
  The scraped text in the words of the specification: the header row, then at most 100 data
  rows, the stripped cell texts of each row joined by commas, one line per row.
\<close>

definition claimed_table_text :: "table \<Rightarrow> string" where
  "claimed_table_text trs =
     (case trs of
        [] \<Rightarrow> []
      | header_row # data \<Rightarrow>
          concat (map (\<lambda>row. join '','' (map strip row) @ ''\<newline>'') (header_row # take 100 data)))"

text \<open>
  The scrape policy in the words of the specification. A text is URL-shaped when it is
  \<^verbatim>\<open>http://\<close> or \<^verbatim>\<open>https://\<close> followed by at least one character, none of them
  whitespace: the texts that the pattern \<^verbatim>\<open>https?://[^\s]+\<close> matches as a whole. A match at
  position \<open>i\<close> of a text is a URL-shaped text that starts there. The first match is the
  longest match at the leftmost position that has one. A text mentions scraping when it
  contains \<^verbatim>\<open>wikipedia.org\<close>, or a substring that is \<^verbatim>\<open>scrape\<close> up to letter case.
\<close>

definition url_shaped :: "string \<Rightarrow> bool" where
  "url_shaped u \<longleftrightarrow>
     (\<exists>rest. (u = ''http://'' @ rest \<or> u = ''https://'' @ rest)
           \<and> rest \<noteq> [] \<and> (\<forall>c \<in> set rest. \<not> isspace c))"

definition match_at :: "string \<Rightarrow> nat \<Rightarrow> string \<Rightarrow> bool" where
  "match_at s i u \<longleftrightarrow> i \<le> length s \<and> url_shaped u \<and> prefix u (drop i s)"

definition first_match :: "string \<Rightarrow> string \<Rightarrow> bool" where
  "first_match s u \<longleftrightarrow>
     (\<exists>i. match_at s i u
        \<and> (\<forall>j<i. \<forall>v. \<not> match_at s j v)
        \<and> (\<forall>v. match_at s i v \<longrightarrow> length v \<le> length u))"

definition mentions_scraping :: "string \<Rightarrow> bool" where
  "mentions_scraping q \<longleftrightarrow>
     sublist ''wikipedia.org'' q \<or> (\<exists>t. sublist t q \<and> lower t = ''scrape'')"

section \<open>Configuration and upstream errors\<close>








text \<open>
  When the handler has sent a prompt, its response is what the second \<^verbatim>\<open>try\<close> block makes of
  the model's answer to that prompt.
\<close>

lemma prompted_singleD:
  assumes "prompted (process_questions w req) = [p]"
  shows "response (process_questions w req) = respond w (generate_content w p)"
  using assms
  by (auto simp: process_questions_def Let_def
      split: if_splits sum.splits prod.splits option.splits)

lemma question_prompted:
  "prompted (process_questions (fixed_world (Inr None) reply) (question ''Total?'')) =
     [full_prompt ''Total?'' None [''Questions: Total?'']]"
  by (simp add: process_questions_def fixed_world_def question_def scrape_def
      scrape_trigger_def lower_def lower_char_def uppercase_def lowercase_def
      image_parts_def csv_parts_def scrape_parts_def)

text \<open>
  C8. In every request whose prompt \<open>p\<close> was sent to the model, if the model call raises an
  exception or returns the empty text, the handler fails with status 500: an empty model
  output is never returned as a body.
\<close>

theorem model_failure_500:
  assumes "prompted (process_questions w req) = [p]"
    and "generate_content w p = Inl e \<or> generate_content w p = Inr []"
  shows "status (process_questions w req) = 500
       \<and> (\<exists>d. response (process_questions w req) = Inl (HTTPException 500 d))"
  using assms(2) prompted_singleD [OF assms(1)]
  by (auto simp: status_def respond_def gemini_error_def)

theorem model_failure_500_witness:
  "prompted (process_questions (fixed_world (Inr None) (Inr [])) (question ''Total?'')) =
     [full_prompt ''Total?'' None [''Questions: Total?'']]
   \<and> generate_content (fixed_world (Inr None) (Inr []))
         (full_prompt ''Total?'' None [''Questions: Total?'']) = Inr []
   \<and> status (process_questions (fixed_world (Inr None) (Inr [])) (question ''Total?'')) = 500"
  using model_failure_500 [of "fixed_world (Inr None) (Inr [])" "question ''Total?''"
      "full_prompt ''Total?'' None [''Questions: Total?'']" "''timeout''"]
    question_prompted [of "Inr []"]
  by (simp add: fixed_world_def)

section \<open>Normalisation of the model's reply\<close>

text \<open>
  C1. The handler parses the cleaned text, not the reply: the two replacements of \<open>clean\<close>
  work on the whole text, string literals included. For the reply \<^verbatim>\<open>{"a": "x  y"}\<close>, which
  is JSON and denotes an object whose string has two spaces, the body returned is the object
  whose string has one space.
\<close>

theorem double_space_reply_altered:
  \<open>response (process_questions (fixed_world (Inr None) (Inr ''{"a": "x  y"}''))
       (question ''Total?''))
     = Inr (JObject [(''a'', JString ''x y'')])
   \<and> json_loads_ref ''{"a": "x  y"}'' = Parsed (JObject [(''a'', JString ''x  y'')])\<close>
proof -
  have c: \<open>clean ''{"a": "x  y"}'' = ''{"a": "x y"}''\<close>
    by (simp add: clean_def strip_def isspace_def)
  have l1: \<open>json_loads_ref ''{"a": "x y"}'' = Parsed (JObject [(''a'', JString ''x y'')])\<close>
    by code_simp
  have l2: \<open>json_loads_ref ''{"a": "x  y"}'' = Parsed (JObject [(''a'', JString ''x  y'')])\<close>
    by code_simp
  have \<open>response (process_questions (fixed_world (Inr None) (Inr ''{"a": "x  y"}''))
           (question ''Total?''))
     = respond (fixed_world (Inr None) (Inr ''{"a": "x  y"}'')) (Inr ''{"a": "x  y"}'')\<close>
    using prompted_singleD [OF question_prompted] by (simp add: fixed_world_def)
  then show ?thesis
    using c l1 l2 by (simp add: respond_def fixed_world_def)
qed

text \<open>
  C2 as stated fails on two replies whose stripped text is not JSON. The empty reply is
  refused with status 500 instead of being wrapped. The reply \<^verbatim>\<open>a  b\<close> is wrapped, but the
  field \<^verbatim>\<open>response\<close> carries the cleaned text \<^verbatim>\<open>a b\<close>, not the stripped text.
\<close>

theorem fallback_not_stripped_text:
  "json_loads_ref (strip []) = JSONDecodeError
   \<and> response (process_questions (fixed_world (Inr None) (Inr [])) (question ''Total?''))
       = Inl (HTTPException 500 ''Error calling Gemini API: 500: No response from Gemini API'')
   \<and> response (process_questions (fixed_world (Inr None) (Inr [])) (question ''Total?''))
       \<noteq> Inr (stripped_fallback [])
   \<and> json_loads_ref (strip ''a  b'') = JSONDecodeError
   \<and> response (process_questions (fixed_world (Inr None) (Inr ''a  b'')) (question ''Total?''))
       = Inr (JObject [(''response'', JString ''a b''), (''status'', JString ''success'')])
   \<and> response (process_questions (fixed_world (Inr None) (Inr ''a  b'')) (question ''Total?''))
       \<noteq> Inr (stripped_fallback ''a  b'')"
proof -
  have s0: "strip [] = []" and s1: "strip ''a  b'' = ''a  b''" and c1: "clean ''a  b'' = ''a b''"
    by (simp_all add: clean_def strip_def isspace_def)
  have l0: "json_loads_ref [] = JSONDecodeError" by code_simp
  have l1: "json_loads_ref ''a  b'' = JSONDecodeError" by code_simp
  have l2: "json_loads_ref ''a b'' = JSONDecodeError" by code_simp
  have r: "response (process_questions (fixed_world (Inr None) reply) (question ''Total?''))
      = respond (fixed_world (Inr None) reply) reply" for reply
    using prompted_singleD [OF question_prompted] by (simp add: fixed_world_def)
  show ?thesis
    unfolding r using s0 s1 c1 l0 l1 l2
    by (simp add: respond_def fixed_world_def gemini_error_def fallback_def stripped_fallback_def)
qed

text \<open>
  C2, amended. In every request whose prompt \<open>p\<close> was sent to the model, if the model's text
  is not empty and its cleaned text (stripped, newlines deleted, each pair of spaces replaced
  by one space from left to right, stripped again) makes \<^verbatim>\<open>json.loads\<close> raise
  \<^verbatim>\<open>JSONDecodeError\<close>, the handler returns exactly the object whose field \<^verbatim>\<open>response\<close> is the
  cleaned text and whose field \<^verbatim>\<open>status\<close> is \<^verbatim>\<open>success\<close>.
\<close>

theorem non_json_reply_fallback:
  assumes "prompted (process_questions w req) = [p]"
    and "generate_content w p = Inr text"
    and "text \<noteq> []"
    and "json_loads w (clean text) = JSONDecodeError"
  shows "response (process_questions w req) =
           Inr (JObject [(''response'', JString (clean text)), (''status'', JString ''success'')])
       \<and> status (process_questions w req) = 200"
  using assms(2-4) prompted_singleD [OF assms(1)]
  by (simp add: status_def respond_def fallback_def)

theorem non_json_reply_fallback_witness:
  "prompted (process_questions (fixed_world (Inr None) (Inr ''a  b'')) (question ''Total?'')) =
     [full_prompt ''Total?'' None [''Questions: Total?'']]
   \<and> generate_content (fixed_world (Inr None) (Inr ''a  b''))
         (full_prompt ''Total?'' None [''Questions: Total?'']) = Inr ''a  b''
   \<and> ''a  b'' \<noteq> []
   \<and> json_loads (fixed_world (Inr None) (Inr ''a  b'')) (clean ''a  b'') = JSONDecodeError
   \<and> response (process_questions (fixed_world (Inr None) (Inr ''a  b'')) (question ''Total?'')) =
       Inr (JObject [(''response'', JString ''a b''), (''status'', JString ''success'')])"
proof -
  have c1: "clean ''a  b'' = ''a b''"
    by (simp add: clean_def strip_def isspace_def)
  have l2: "json_loads_ref ''a b'' = JSONDecodeError" by code_simp
  show ?thesis
    using non_json_reply_fallback [of "fixed_world (Inr None) (Inr ''a  b'')" "question ''Total?''"
        "full_prompt ''Total?'' None [''Questions: Total?'']" "''a  b''"]
      question_prompted [of "Inr ''a  b''"] c1 l2
    by (simp add: fixed_world_def)
qed

section \<open>Facts about the prompt\<close>

lemma contains_sublist: "contains s sub \<longleftrightarrow> sublist sub s"
  by (induction s) (auto simp: sublist_Cons_right)

lemma sublist_join: "x \<in> set xs \<Longrightarrow> sublist x (join sep xs)"
proof (induction sep xs rule: join.induct)
  case (3 sep p q ps)
  show ?case
  proof (cases "x = p")
    case True
    then show ?thesis by simp
  next
    case False
    with 3 have "sublist x (join sep (q # ps))" by simp
    then obtain a b where "join sep (q # ps) = a @ x @ b" by (auto simp: sublist_def)
    then have "join sep (p # q # ps) = (p @ sep @ a) @ x @ b" by simp
    then show ?thesis unfolding sublist_def by blast
  qed
qed simp_all

lemma sublist_full_prompt:
  assumes "part \<in> set (drop 1 parts)" and "part \<noteq> []"
  shows "sublist part (full_prompt q csv parts)"
proof -
  from assms have "part \<in> set (filter truthy (drop 1 parts))" by simp
  then have "sublist part (join ''\<newline>'' (filter truthy (drop 1 parts)))" by (rule sublist_join)
  then obtain a b where "join ''\<newline>'' (filter truthy (drop 1 parts)) = a @ part @ b"
    by (auto simp: sublist_def)
  then have "\<exists>a' b'. full_prompt q csv parts = a' @ part @ b'"
    unfolding full_prompt_def by (metis append.assoc)
  then show ?thesis unfolding sublist_def .
qed

lemma handler_reached:
  assumes "GEMINI_API_KEY w = Some k" and "k \<noteq> []" and "questions_txt req = Inr q"
  shows "process_questions w req =
     (case image_parts (image_png req) of
        Inl err \<Rightarrow> \<lparr>response = Inl err, fetched = snd (scrape w q), prompted = []\<rparr>
      | Inr image_note \<Rightarrow>
          (case csv_parts (data_csv req) of
             Inl err \<Rightarrow> \<lparr>response = Inl err, fetched = snd (scrape w q), prompted = []\<rparr>
           | Inr csv_note \<Rightarrow>
               \<lparr>response = respond w (generate_content w
                   (full_prompt q (data_csv req)
                      (scrape_parts q (fst (scrape w q)) @ image_note @ csv_note))),
                fetched = snd (scrape w q),
                prompted = [full_prompt q (data_csv req)
                      (scrape_parts q (fst (scrape w q)) @ image_note @ csv_note)]\<rparr>))"
  using assms
  by (simp add: process_questions_def Let_def split: prod.splits sum.splits)

text \<open>
  C9. Two requests that differ only in the bytes of a readable \<^verbatim>\<open>image.png\<close> part with the
  same file name have the same outcome, and so the same prompt: the bytes are read and
  dropped. Every prompt sent carries the note with the file name.
\<close>

theorem image_bytes_not_in_prompt:
  "prompted (process_questions w (req\<lparr>image_png := Some \<lparr>filename = name, image_read = Inr first_bytes\<rparr>\<rparr>))
     = prompted (process_questions w (req\<lparr>image_png := Some \<lparr>filename = name, image_read = Inr second_bytes\<rparr>\<rparr>))
   \<and> process_questions w (req\<lparr>image_png := Some \<lparr>filename = name, image_read = Inr first_bytes\<rparr>\<rparr>)
     = process_questions w (req\<lparr>image_png := Some \<lparr>filename = name, image_read = Inr second_bytes\<rparr>\<rparr>)
   \<and> (\<forall>p \<in> set (prompted (process_questions w
           (req\<lparr>image_png := Some \<lparr>filename = name, image_read = Inr first_bytes\<rparr>\<rparr>))).
         sublist (''Image file provided: '' @ name) p)"
proof -
  have eq: "process_questions w (req\<lparr>image_png := Some \<lparr>filename = name, image_read = Inr first_bytes\<rparr>\<rparr>)
     = process_questions w (req\<lparr>image_png := Some \<lparr>filename = name, image_read = Inr second_bytes\<rparr>\<rparr>)"
    by (simp add: process_questions_def image_parts_def split: sum.splits prod.splits)
  have noted: "sublist (''Image file provided: '' @ name) p"
    if "p \<in> set (prompted (process_questions w
           (req\<lparr>image_png := Some \<lparr>filename = name, image_read = Inr first_bytes\<rparr>\<rparr>)))" for p
  proof -
    from that obtain q sd cn where
      "p = full_prompt q (data_csv req) (scrape_parts q sd @ [''Image file provided: '' @ name] @ cn)"
      by (auto simp: process_questions_def image_parts_def Let_def
          split: if_splits sum.splits prod.splits)
    then show ?thesis
      by (auto intro!: sublist_full_prompt simp: scrape_parts_def)
  qed
  from eq noted show ?thesis by simp
qed

theorem image_bytes_not_in_prompt_witness:
  "prompted (process_questions (fixed_world (Inr None) (Inr ''[]''))
      (question ''Total?''\<lparr>image_png := Some \<lparr>filename = ''chart.png'', image_read = Inr [137, 80]\<rparr>\<rparr>))
     = [full_prompt ''Total?'' None [''Questions: Total?'', ''Image file provided: chart.png'']]
   \<and> prompted (process_questions (fixed_world (Inr None) (Inr ''[]''))
      (question ''Total?''\<lparr>image_png := Some \<lparr>filename = ''chart.png'', image_read = Inr [0]\<rparr>\<rparr>))
     = [full_prompt ''Total?'' None [''Questions: Total?'', ''Image file provided: chart.png'']]
   \<and> sublist ''Image file provided: chart.png''
        (full_prompt ''Total?'' None [''Questions: Total?'', ''Image file provided: chart.png''])"
proof -
  have p: "prompted (process_questions (fixed_world (Inr None) (Inr ''[]''))
      (question ''Total?''\<lparr>image_png := Some \<lparr>filename = ''chart.png'', image_read = Inr [137, 80]\<rparr>\<rparr>))
     = [full_prompt ''Total?'' None [''Questions: Total?'', ''Image file provided: chart.png'']]"
    by (simp add: process_questions_def fixed_world_def question_def scrape_def
      scrape_trigger_def lower_def lower_char_def uppercase_def lowercase_def
      image_parts_def csv_parts_def scrape_parts_def)
  show ?thesis
    using image_bytes_not_in_prompt [where w = "fixed_world (Inr None) (Inr ''[]'')"
        and req = "question ''Total?''" and name = "''chart.png''"
        and first_bytes = "[137, 80]" and second_bytes = "[0]"] p
    by simp
qed

section \<open>The scrape step and the prompt\<close>

lemma foldl_append_lines:
  "foldl (\<lambda>acc row. acc @ f row) init rows = init @ concat (map f rows)"
  by (induction rows arbitrary: init) simp_all

lemma scrape_fetched_table:
  assumes "scrape_trigger q" and "re_search_url q = Some url" and "fetch w url = Inr (Some trs)"
  shows "scrape w q = (format_table url trs, [url])"
  using assms by (simp add: scrape_def)

lemma scrape_question:
  "scrape (fixed_world page reply) ''scrape http://w.org/t now'' =
     (case page of Inl e \<Rightarrow> (''Error scraping data: '' @ e, [''http://w.org/t''])
      | Inr None \<Rightarrow> ([], [''http://w.org/t''])
      | Inr (Some trs) \<Rightarrow> (format_table ''http://w.org/t'' trs, [''http://w.org/t'']))"
  by (simp add: scrape_def scrape_trigger_def fixed_world_def match_url_def isspace_def
      lower_def lower_char_def uppercase_def lowercase_def)

text \<open>
  C10. When the table found has no header cell or no data row with a cell, the scraped text
  is empty, the outcome of the request is the one it has when the page has no such table,
  and every prompt sent is composed of the questions part and of parts none of which is a
  scraped-data part.
\<close>

theorem empty_table_no_section:
  assumes "GEMINI_API_KEY w = Some k" and "k \<noteq> []" and "questions_txt req = Inr q"
    and "scrape_trigger q" and "re_search_url q = Some url"
    and "fetch w url = Inr (Some trs)"
    and "headers_of trs = [] \<or> rows_of trs = []"
  shows "fst (scrape w q) = []
       \<and> process_questions w req = process_questions (w\<lparr>fetch := (fetch w)(url := Inr None)\<rparr>) req
       \<and> (\<forall>p \<in> set (prompted (process_questions w req)).
            \<exists>parts. p = full_prompt q (data_csv req) ((''Questions: '' @ q) # parts)
                  \<and> (\<forall>part \<in> set parts. \<not> prefix ''Scraped Data: '' part))"
proof -
  from assms(7) have f: "format_table url trs = []"
    by (auto simp: format_table_def)
  with assms(4-6) have s: "scrape w q = ([], [url])"
    by (simp add: scrape_fetched_table)
  from assms(4,5) have s': "scrape (w\<lparr>fetch := (fetch w)(url := Inr None)\<rparr>) q = ([], [url])"
    by (simp add: scrape_def)
  have e: "process_questions w req = process_questions (w\<lparr>fetch := (fetch w)(url := Inr None)\<rparr>) req"
    using assms(1-3) s s' by (simp add: process_questions_def respond_def Let_def split: sum.splits)
  have n: "\<exists>parts. p = full_prompt q (data_csv req) ((''Questions: '' @ q) # parts)
                  \<and> (\<forall>part \<in> set parts. \<not> prefix ''Scraped Data: '' part)"
    if "p \<in> set (prompted (process_questions w req))" for p
  proof -
    from that obtain inote cnote where
      p: "p = full_prompt q (data_csv req) (scrape_parts q [] @ inote @ cnote)"
      and i: "image_parts (image_png req) = Inr inote"
      and c: "csv_parts (data_csv req) = Inr cnote"
      using s by (auto simp: handler_reached [OF assms(1-3)] split: sum.splits)
    from i c have "\<forall>part \<in> set (inote @ cnote). \<not> prefix ''Scraped Data: '' part"
      by (auto simp: image_parts_def csv_parts_def split: option.splits sum.splits)
    with p show ?thesis by (auto simp: scrape_parts_def)
  qed
  from s e n show ?thesis by simp
qed

theorem empty_table_no_section_witness:
  "scrape_trigger ''scrape http://w.org/t now''
   \<and> re_search_url ''scrape http://w.org/t now'' = Some ''http://w.org/t''
   \<and> rows_of [[''Rank'', ''Title'']] = []
   \<and> process_questions (fixed_world (Inr (Some [[''Rank'', ''Title'']])) (Inr ''[]''))
        (question ''scrape http://w.org/t now'')
     = process_questions (fixed_world (Inr (Some [[''Rank'', ''Title'']])) (Inr ''[]'')
          \<lparr>fetch := (\<lambda>url. Inr (Some [[''Rank'', ''Title'']]))(''http://w.org/t'' := Inr None)\<rparr>)
        (question ''scrape http://w.org/t now'')"
proof -
  have t: "scrape_trigger ''scrape http://w.org/t now''"
    by (simp add: scrape_trigger_def lower_def lower_char_def uppercase_def lowercase_def)
  have u: "re_search_url ''scrape http://w.org/t now'' = Some ''http://w.org/t''"
    by (simp add: match_url_def isspace_def)
  have r: "rows_of [[''Rank'', ''Title'']] = []"
    by (simp add: rows_of_def)
  show ?thesis
    using empty_table_no_section [of "fixed_world (Inr (Some [[''Rank'', ''Title'']])) (Inr ''[]'')"
        "''key''" "question ''scrape http://w.org/t now''" "''scrape http://w.org/t now''"
        "''http://w.org/t''" "[[''Rank'', ''Title'']]"] t u r
    by (simp add: fixed_world_def question_def)
qed





text \<open>
  C3 as stated fails. The scraped text starts with a title that names the URL, before the
  header row; a row without cells gives nothing, not an empty line; and a table with a
  header row only gives no text at all.
\<close>

theorem table_text_not_claimed:
  "fst (scrape (fixed_world (Inr (Some [[''Rank'', '' Title ''], [''1'', ''Alpha'']])) (Inr ''[]''))
          ''scrape http://w.org/t now'')
     = ''Scraped Data from http://w.org/t:\<newline>Rank,Title\<newline>1,Alpha\<newline>''
   \<and> claimed_table_text [[''Rank'', '' Title ''], [''1'', ''Alpha'']]
     = ''Rank,Title\<newline>1,Alpha\<newline>''
   \<and> fst (scrape (fixed_world (Inr (Some [[''Rank'', '' Title ''], [''1'', ''Alpha'']])) (Inr ''[]''))
          ''scrape http://w.org/t now'')
     \<noteq> claimed_table_text [[''Rank'', '' Title ''], [''1'', ''Alpha'']]
   \<and> fst (scrape (fixed_world (Inr (Some [[''Rank''], [], [''1'']])) (Inr ''[]''))
          ''scrape http://w.org/t now'')
     = ''Scraped Data from http://w.org/t:\<newline>Rank\<newline>1\<newline>''
   \<and> claimed_table_text [[''Rank''], [], [''1'']] = ''Rank\<newline>\<newline>1\<newline>''
   \<and> fst (scrape (fixed_world (Inr (Some [[''Rank'']])) (Inr ''[]'')) ''scrape http://w.org/t now'')
     = []
   \<and> claimed_table_text [[''Rank'']] = ''Rank\<newline>''"
  by (simp add: scrape_question format_table_def headers_of_def rows_of_def claimed_table_text_def
      strip_def isspace_def)

text \<open>
  C3, amended. When the table found has a header cell and a data row with a cell, the scraped
  text is \<^verbatim>\<open>Scraped Data from <url>:\<close> and a newline, then the stripped header cell texts
  joined by commas and a newline, then, for each of the first 100 data rows that have a cell
  and in their order, the stripped cell texts of the row joined by commas and a newline. The
  rows after the first 100 and the rows without cells give nothing. Every prompt sent carries
  this text after \<^verbatim>\<open>Scraped Data:\<close>. (A cell text may itself hold a newline, so the text of
  a row is not always a single line.)
\<close>

theorem table_text:
  assumes "GEMINI_API_KEY w = Some k" and "k \<noteq> []" and "questions_txt req = Inr q"
    and "scrape_trigger q" and "re_search_url q = Some url"
    and "fetch w url = Inr (Some trs)"
    and "headers_of trs \<noteq> []" and "rows_of trs \<noteq> []"
  shows "fst (scrape w q) =
           ''Scraped Data from '' @ url @ '':\<newline>'' @
           concat (map (\<lambda>cells. join '','' cells @ ''\<newline>'')
                     (headers_of trs # take 100 (rows_of trs)))
       \<and> headers_of trs = map strip (hd trs)
       \<and> rows_of trs = filter (\<lambda>cells. cells \<noteq> []) (map (map strip) (tl trs))
       \<and> length (take 100 (rows_of trs)) \<le> 100
       \<and> (\<forall>p \<in> set (prompted (process_questions w req)).
            sublist (''Scraped Data: '' @ fst (scrape w q)) p)"
proof -
  let ?r = "process_questions w req"
  from assms(4-6) have s: "scrape w q = (format_table url trs, [url])"
    by (rule scrape_fetched_table)
  from assms(7,8) have f: "format_table url trs =
           ''Scraped Data from '' @ url @ '':\<newline>'' @
           concat (map (\<lambda>cells. join '','' cells @ ''\<newline>'')
                     (headers_of trs # take 100 (rows_of trs)))"
    by (simp add: format_table_def foldl_append_lines)
  from assms(7) have h: "headers_of trs = map strip (hd trs)"
    by (cases trs) (simp_all add: headers_of_def)
  have r: "rows_of trs = filter (\<lambda>cells. cells \<noteq> []) (map (map strip) (tl trs))"
    by (simp add: rows_of_def drop_Suc)
  from f have ne: "format_table url trs \<noteq> []" by simp
  have e: "sublist (''Scraped Data: '' @ fst (scrape w q)) p" if "p \<in> set (prompted ?r)" for p
  proof -
    from that obtain inote cnote where
      "p = full_prompt q (data_csv req) (scrape_parts q (format_table url trs) @ inote @ cnote)"
      using s by (auto simp: handler_reached [OF assms(1-3)] split: sum.splits)
    then show ?thesis
      using ne s by (auto intro!: sublist_full_prompt simp: scrape_parts_def)
  qed
  from s f h r e show ?thesis by simp
qed

theorem table_text_witness:
  "scrape_trigger ''scrape http://w.org/t now''
   \<and> re_search_url ''scrape http://w.org/t now'' = Some ''http://w.org/t''
   \<and> headers_of [[''Rank'', '' Title ''], [''1'', ''Alpha'']] = [''Rank'', ''Title'']
   \<and> rows_of [[''Rank'', '' Title ''], [''1'', ''Alpha'']] = [[''1'', ''Alpha'']]
   \<and> fst (scrape (fixed_world (Inr (Some [[''Rank'', '' Title ''], [''1'', ''Alpha'']])) (Inr ''[]''))
          ''scrape http://w.org/t now'')
     = ''Scraped Data from http://w.org/t:\<newline>Rank,Title\<newline>1,Alpha\<newline>''
   \<and> prompted (process_questions
         (fixed_world (Inr (Some [[''Rank'', '' Title ''], [''1'', ''Alpha'']])) (Inr ''[]''))
         (question ''scrape http://w.org/t now''))
     = [full_prompt ''scrape http://w.org/t now'' None
         [''Questions: scrape http://w.org/t now'',
          ''Scraped Data: Scraped Data from http://w.org/t:\<newline>Rank,Title\<newline>1,Alpha\<newline>'']]
   \<and> sublist ''Scraped Data: Scraped Data from http://w.org/t:\<newline>Rank,Title\<newline>1,Alpha\<newline>''
        (full_prompt ''scrape http://w.org/t now'' None
         [''Questions: scrape http://w.org/t now'',
          ''Scraped Data: Scraped Data from http://w.org/t:\<newline>Rank,Title\<newline>1,Alpha\<newline>''])"
proof -
  let ?trs = "[[''Rank'', '' Title ''], [''1'', ''Alpha'']]"
  let ?w = "fixed_world (Inr (Some ?trs)) (Inr ''[]'')"
  let ?q = "''scrape http://w.org/t now''"
  have t: "scrape_trigger ?q"
    by (simp add: scrape_trigger_def lower_def lower_char_def uppercase_def lowercase_def)
  have u: "re_search_url ?q = Some ''http://w.org/t''"
    by (simp add: match_url_def isspace_def)
  have f: "fetch ?w ''http://w.org/t'' = Inr (Some ?trs)"
    by (simp add: fixed_world_def)
  have hd: "headers_of ?trs = [''Rank'', ''Title'']" and rw: "rows_of ?trs = [[''1'', ''Alpha'']]"
    by (simp_all add: headers_of_def rows_of_def strip_def isspace_def)
  have ft: "format_table ''http://w.org/t'' ?trs
      = ''Scraped Data from http://w.org/t:\<newline>Rank,Title\<newline>1,Alpha\<newline>''"
    by (simp add: format_table_def hd rw)
  have p: "prompted (process_questions ?w (question ?q))
     = [full_prompt ?q None
         [''Questions: scrape http://w.org/t now'',
          ''Scraped Data: Scraped Data from http://w.org/t:\<newline>Rank,Title\<newline>1,Alpha\<newline>'']]"
    by (simp add: process_questions_def scrape_question image_parts_def csv_parts_def
        scrape_parts_def question_def ft)
      (simp add: fixed_world_def)
  have k: "GEMINI_API_KEY ?w = Some ''key''" and k': "''key'' \<noteq> []"
    and qq: "questions_txt (question ?q) = Inr ?q"
    by (simp_all add: fixed_world_def question_def)
  have h1: "headers_of ?trs \<noteq> []" and h2: "rows_of ?trs \<noteq> []"
    by (simp_all add: hd rw)
  note T = table_text [OF k k' qq t u f h1 h2]
  from T have s: "fst (scrape ?w ?q)
      = ''Scraped Data from http://w.org/t:\<newline>Rank,Title\<newline>1,Alpha\<newline>''"
    by (simp add: hd rw)
  from T have "\<forall>p \<in> set (prompted (process_questions ?w (question ?q))).
      sublist (''Scraped Data: '' @ fst (scrape ?w ?q)) p"
    by blast
  then have e: "sublist
      ''Scraped Data: Scraped Data from http://w.org/t:\<newline>Rank,Title\<newline>1,Alpha\<newline>''
      (full_prompt ?q None
         [''Questions: scrape http://w.org/t now'',
          ''Scraped Data: Scraped Data from http://w.org/t:\<newline>Rank,Title\<newline>1,Alpha\<newline>''])"
    unfolding p s by simp
  from t u hd rw s p e show ?thesis
    by blast
qed

section \<open>The scrape trigger and the URL fetched\<close>

lemma sublist_map_iff: "sublist x (map f s) \<longleftrightarrow> (\<exists>t. sublist t s \<and> map f t = x)"
proof
  assume "sublist x (map f s)"
  then obtain a b where "map f s = a @ x @ b" by (auto simp: sublist_def)
  then obtain a' t b' where "s = a' @ t @ b'" and "map f t = x"
    by (auto simp: map_eq_append_conv append_eq_map_conv)
  then show "\<exists>t. sublist t s \<and> map f t = x" by (auto simp: sublist_def)
next
  assume "\<exists>t. sublist t s \<and> map f t = x"
  then obtain t a b where "s = a @ t @ b" and "map f t = x" by (auto simp: sublist_def)
  then have "map f s = map f a @ x @ map f b" by simp
  then show "sublist x (map f s)" unfolding sublist_def by blast
qed

lemma scrape_trigger_iff: "scrape_trigger q \<longleftrightarrow> mentions_scraping q"
  by (simp add: scrape_trigger_def mentions_scraping_def contains_sublist lower_def
      sublist_map_iff)

lemma takeWhile_prefixI:
  assumes "prefix r t" and "\<forall>c \<in> set r. P c"
  shows "prefix r (takeWhile P t)"
proof -
  from assms(1) obtain z where "t = r @ z" by (auto simp: prefix_def)
  with assms(2) show ?thesis by (simp add: takeWhile_append2)
qed

lemma match_url_shaped:
  assumes "match_url s = Some u"
  shows "url_shaped u \<and> prefix u s"
proof -
  let ?P = "\<lambda>c. \<not> isspace c"
  have tw: "\<forall>c \<in> set (takeWhile ?P t). \<not> isspace c" for t
    by (auto dest: set_takeWhileD)
  show ?thesis
  proof (cases "prefix ''https://'' s \<and> takeWhile ?P (drop 8 s) \<noteq> []")
    case True
    then obtain t where s: "s = ''https://'' @ t" by (auto simp: prefix_def)
    with True assms have u: "u = ''https://'' @ takeWhile ?P t"
      by (auto simp: match_url_def)
    have "prefix (takeWhile ?P t) t" by (metis prefixI takeWhile_dropWhile_id)
    with u s True tw show ?thesis
      unfolding url_shaped_def by auto
  next
    case False
    with assms have c: "prefix ''http://'' s \<and> takeWhile ?P (drop 7 s) \<noteq> []"
      and u: "u = ''http://'' @ takeWhile ?P (drop 7 s)"
      by (auto simp: match_url_def split: if_splits)
    from c obtain t where s: "s = ''http://'' @ t" by (auto simp: prefix_def)
    have "prefix (takeWhile ?P t) t" by (metis prefixI takeWhile_dropWhile_id)
    with u s c tw show ?thesis
      unfolding url_shaped_def by auto
  qed
qed

lemma match_url_longest:
  assumes "url_shaped v" and "prefix v s"
  shows "\<exists>u. match_url s = Some u \<and> prefix v u"
proof -
  let ?P = "\<lambda>c. \<not> isspace c"
  from assms(1) obtain r where
    v: "v = ''http://'' @ r \<or> v = ''https://'' @ r" and r: "r \<noteq> []" "\<forall>c \<in> set r. ?P c"
    by (auto simp: url_shaped_def)
  from assms(2) obtain z where s: "s = v @ z" by (auto simp: prefix_def)
  from r have tw: "takeWhile ?P (r @ z) = r @ takeWhile ?P z"
    by (simp add: takeWhile_append2)
  from v show ?thesis
  proof
    assume "v = ''http://'' @ r"
    with s r tw show ?thesis by (simp add: match_url_def)
  next
    assume "v = ''https://'' @ r"
    with s r tw show ?thesis by (simp add: match_url_def)
  qed
qed

lemma match_url_None_iff: "match_url s = None \<longleftrightarrow> \<not> (\<exists>v. url_shaped v \<and> prefix v s)"
  using match_url_shaped [of s] match_url_longest [of _ s]
  by (cases "match_url s") auto

lemma re_search_url_Some:
  assumes "re_search_url s = Some u"
  shows "\<exists>i\<le>length s. match_url (drop i s) = Some u \<and> (\<forall>j<i. match_url (drop j s) = None)"
  using assms
proof (induction s)
  case Nil
  then show ?case by simp
next
  case (Cons c cs)
  show ?case
  proof (cases "match_url (c # cs)")
    case (Some u')
    with Cons.prems have "match_url (drop 0 (c # cs)) = Some u" by simp
    then show ?thesis by blast
  next
    case None
    with Cons.prems have "re_search_url cs = Some u" by simp
    with Cons.IH obtain i where i: "i \<le> length cs" "match_url (drop i cs) = Some u"
      "\<forall>j<i. match_url (drop j cs) = None" by blast
    have "\<forall>j<Suc i. match_url (drop j (c # cs)) = None"
    proof (intro allI impI)
      fix j assume "j < Suc i"
      then show "match_url (drop j (c # cs)) = None"
        using None i(3) by (cases j) auto
    qed
    with i(1,2) show ?thesis
      by (intro exI [of _ "Suc i"]) simp
  qed
qed

lemma re_search_url_None:
  assumes "re_search_url s = None" and "i \<le> length s"
  shows "match_url (drop i s) = None"
  using assms
proof (induction s arbitrary: i)
  case Nil
  then show ?case by (simp add: match_url_def)
next
  case (Cons c cs)
  then show ?case
    by (cases i) (auto split: option.splits)
qed

lemma match_at_iff: "(\<exists>v. match_at s i v) \<longleftrightarrow> i \<le> length s \<and> match_url (drop i s) \<noteq> None"
  by (auto simp: match_at_def match_url_None_iff)

lemma re_search_url_first_match:
  assumes "re_search_url s = Some u"
  shows "first_match s u"
proof -
  from re_search_url_Some [OF assms] obtain i where i: "i \<le> length s"
    "match_url (drop i s) = Some u" "\<forall>j<i. match_url (drop j s) = None" by blast
  from i(1,2) have 1: "match_at s i u"
    using match_url_shaped by (simp add: match_at_def)
  have 2: "\<forall>j<i. \<forall>v. \<not> match_at s j v"
    using i(3) match_at_iff by blast
  have 3: "\<forall>v. match_at s i v \<longrightarrow> length v \<le> length u"
  proof (intro allI impI)
    fix v assume "match_at s i v"
    then have "url_shaped v" "prefix v (drop i s)" by (simp_all add: match_at_def)
    from match_url_longest [OF this] i(2) have "prefix v u" by simp
    then show "length v \<le> length u" by (rule prefix_length_le)
  qed
  from 1 2 3 show ?thesis unfolding first_match_def by blast
qed

lemma first_match_unique:
  assumes "first_match s u" and "first_match s v"
  shows "u = v"
proof -
  from assms(1) obtain i where i: "match_at s i u" "\<forall>j<i. \<forall>x. \<not> match_at s j x"
    "\<forall>x. match_at s i x \<longrightarrow> length x \<le> length u" unfolding first_match_def by blast
  from assms(2) obtain k where k: "match_at s k v" "\<forall>j<k. \<forall>x. \<not> match_at s j x"
    "\<forall>x. match_at s k x \<longrightarrow> length x \<le> length v" unfolding first_match_def by blast
  have "\<not> i < k" using i(1) k(2) by blast
  moreover have "\<not> k < i" using k(1) i(2) by blast
  ultimately have ik: "i = k" by simp
  from i(1) k(1) ik have p: "prefix u (drop i s)" "prefix v (drop i s)"
    by (simp_all add: match_at_def)
  from i(3) k(1) ik have "length v \<le> length u" by simp
  with p(2,1) have vu: "prefix v u" by (rule prefix_length_prefix)
  from k(3) i(1) ik have "length u \<le> length v" by simp
  with p have "prefix u v" by (rule prefix_length_prefix)
  with vu show ?thesis by (rule prefix_order.antisym [symmetric])
qed

lemma re_search_url_iff: "re_search_url s = Some u \<longleftrightarrow> first_match s u"
proof
  assume "re_search_url s = Some u"
  then show "first_match s u" by (rule re_search_url_first_match)
next
  assume f: "first_match s u"
  then obtain i where m: "match_at s i u" unfolding first_match_def by blast
  then have il: "i \<le> length s" by (simp add: match_at_def)
  from m have "\<exists>v. match_at s i v" by blast
  then have mu: "match_url (drop i s) \<noteq> None" by (simp add: match_at_iff)
  have "re_search_url s \<noteq> None"
  proof
    assume "re_search_url s = None"
    from re_search_url_None [OF this il] mu show False by simp
  qed
  then obtain u' where u': "re_search_url s = Some u'" by (cases "re_search_url s") simp_all
  then have "first_match s u'" by (rule re_search_url_first_match)
  with f have "u' = u" by (rule first_match_unique [symmetric])
  with u' show "re_search_url s = Some u" by simp
qed

lemma re_search_url_None_iff:
  "re_search_url s = None \<longleftrightarrow> \<not> (\<exists>u. url_shaped u \<and> sublist u s)"
proof
  assume n: "re_search_url s = None"
  show "\<not> (\<exists>u. url_shaped u \<and> sublist u s)"
  proof
    assume "\<exists>u. url_shaped u \<and> sublist u s"
    then obtain u a b where u: "url_shaped u" "s = a @ u @ b" by (auto simp: sublist_def)
    then have "match_at s (length a) u" by (simp add: match_at_def)
    then have "\<exists>v. match_at s (length a) v" by blast
    then have mu: "match_url (drop (length a) s) \<noteq> None" and il: "length a \<le> length s"
      by (simp_all add: match_at_iff)
    from re_search_url_None [OF n il] mu show False by simp
  qed
next
  assume a: "\<not> (\<exists>u. url_shaped u \<and> sublist u s)"
  show "re_search_url s = None"
  proof (rule ccontr)
    assume "re_search_url s \<noteq> None"
    then obtain u where "re_search_url s = Some u" by (cases "re_search_url s") simp_all
    then have "first_match s u" by (rule re_search_url_first_match)
    then obtain i where "match_at s i u" unfolding first_match_def by blast
    then have "url_shaped u" "prefix u (drop i s)" by (simp_all add: match_at_def)
    then obtain z where "drop i s = u @ z" by (auto simp: prefix_def)
    then have "s = take i s @ u @ z" by (metis append_take_drop_id)
    then have "sublist u s" unfolding sublist_def by blast
    with \<open>url_shaped u\<close> a show False by blast
  qed
qed

text \<open>
  C4. For every question text \<open>q\<close> that the handler has read, exactly one URL \<open>u\<close> is fetched
  if and only if \<open>q\<close> mentions scraping and \<open>u\<close> is the first match of the URL pattern in
  \<open>q\<close>; nothing is fetched if and only if \<open>q\<close> does not mention scraping or has no URL-shaped
  substring; and never more than one URL is fetched.
\<close>

theorem scrape_trigger_and_url:
  assumes "GEMINI_API_KEY w = Some k" and "k \<noteq> []" and "questions_txt req = Inr q"
  shows "(\<forall>u. fetched (process_questions w req) = [u] \<longleftrightarrow> mentions_scraping q \<and> first_match q u)
       \<and> (fetched (process_questions w req) = [] \<longleftrightarrow>
            \<not> mentions_scraping q \<or> \<not> (\<exists>u. url_shaped u \<and> sublist u q))
       \<and> length (fetched (process_questions w req)) \<le> 1"
proof -
  have f: "fetched (process_questions w req) = snd (scrape w q)"
    by (simp add: handler_reached [OF assms] split: sum.splits)
  have s: "snd (scrape w q) =
     (if mentions_scraping q then (case re_search_url q of None \<Rightarrow> [] | Some url \<Rightarrow> [url]) else [])"
    by (simp add: scrape_def scrape_trigger_iff split: option.splits sum.splits)
  show ?thesis
  proof (cases "re_search_url q")
    case None
    then have n: "\<not> (\<exists>u. url_shaped u \<and> sublist u q)"
      using re_search_url_None_iff [of q] by blast
    from None have m: "\<not> first_match q u" for u
      by (simp add: re_search_url_iff [symmetric])
    from None have e: "fetched (process_questions w req) = []"
      unfolding f s by simp
    from n m show ?thesis
      unfolding e by simp
  next
    case (Some url)
    then have n: "\<exists>u. url_shaped u \<and> sublist u q"
      using re_search_url_None_iff [of q] by simp
    from Some have m: "first_match q u \<longleftrightarrow> url = u" for u
      by (simp add: re_search_url_iff [symmetric])
    show ?thesis
    proof (cases "mentions_scraping q")
      case True
      with Some have e: "fetched (process_questions w req) = [url]"
        unfolding f s by simp
      from True n show ?thesis
        unfolding e m by simp
    next
      case False
      then have e: "fetched (process_questions w req) = []"
        unfolding f s by simp
      from False show ?thesis
        unfolding e by simp
    qed
  qed
qed

theorem scrape_trigger_and_url_witness:
  "mentions_scraping ''Scrape http://w.org/t now http://v.org''
   \<and> first_match ''Scrape http://w.org/t now http://v.org'' ''http://w.org/t''
   \<and> fetched (process_questions (fixed_world (Inr None) (Inr ''[]''))
        (question ''Scrape http://w.org/t now http://v.org'')) = [''http://w.org/t'']"
proof -
  let ?w = "fixed_world (Inr None) (Inr ''[]'')"
  let ?q = "''Scrape http://w.org/t now http://v.org''"
  have k: "GEMINI_API_KEY ?w = Some ''key''" and k': "''key'' \<noteq> []"
    and qq: "questions_txt (question ?q) = Inr ?q"
    by (simp_all add: fixed_world_def question_def)
  have f: "fetched (process_questions ?w (question ?q)) = [''http://w.org/t'']"
    by (simp add: process_questions_def fixed_world_def question_def scrape_def
        scrape_trigger_def match_url_def isspace_def image_parts_def csv_parts_def
        lower_def lower_char_def uppercase_def lowercase_def)
  from scrape_trigger_and_url [OF k k' qq] f show ?thesis
    by blast
qed

end
